theory Spec2Isabelle
  imports Complex_Main "HOL-Library.Sublist"
begin

section \<open>Data model\<close>

text \<open>
  A JavaScript \<^verbatim>\<open>Error\<close> is represented by its \<^verbatim>\<open>message\<close>; a promise that rejects
  is \<open>Inl message\<close>, one that resolves is \<open>Inr value\<close>. A field that may be
  \<^verbatim>\<open>undefined\<close> or \<^verbatim>\<open>null\<close> is an \<open>option\<close>. Strings are \<open>char list\<close>s
  (the Latin-1 part of JavaScript's UTF-16 strings).
\<close>

type_synonym js_error = string

record product =
  title :: "string option"
  price :: "string option"
  rating :: "string option"
  imageUrl :: "string option"
  link :: "string option"

section \<open>JavaScript built-ins used by the program\<close>

text \<open>
  \<^verbatim>\<open>StrWhiteSpaceChar\<close>: the white space and line terminator characters that
  \<^verbatim>\<open>String.prototype.trim\<close> and \<^verbatim>\<open>parseInt\<close> strip (those below U+0100).
\<close>

definition isStrWhiteSpace :: "char \<Rightarrow> bool" where
  "isStrWhiteSpace c =
     (c \<in> set [CHR 0x09, CHR 0x0A, CHR 0x0B, CHR 0x0C, CHR 0x0D, CHR 0x20, CHR 0xA0])"

definition trim :: "string \<Rightarrow> string" where
  "trim s = rev (dropWhile isStrWhiteSpace (rev (dropWhile isStrWhiteSpace s)))"

text \<open>\<^verbatim>\<open>s.includes(sub)\<close>, also the CSS attribute selector \<^verbatim>\<open>[attr*="sub"]\<close>.\<close>

fun includesStr :: "string \<Rightarrow> string \<Rightarrow> bool" where
  "includesStr [] sub = (sub = [])"
| "includesStr (c # cs) sub = (prefix sub (c # cs) \<or> includesStr cs sub)"

text \<open>
  A value is truthy in \<^verbatim>\<open>p.title && p.price\<close> when it is neither \<^verbatim>\<open>undefined\<close> nor
  the empty string.
\<close>

definition truthy :: "string option \<Rightarrow> bool" where
  "truthy v = (case v of None \<Rightarrow> False | Some s \<Rightarrow> s \<noteq> [])"

fun indexOf :: "'a \<Rightarrow> 'a list \<Rightarrow> nat option" where
  "indexOf x [] = None"
| "indexOf x (y # ys) = (if x = y then Some 0 else map_option Suc (indexOf x ys))"

definition digitValue :: "char \<Rightarrow> nat option" where
  "digitValue c =
     (case indexOf c ''0123456789abcdef'' of
        Some d \<Rightarrow> Some d
      | None \<Rightarrow> map_option (\<lambda>d. d + 10) (indexOf c ''ABCDEF''))"

definition isRadixDigit :: "nat \<Rightarrow> char \<Rightarrow> bool" where
  "isRadixDigit R c = (case digitValue c of None \<Rightarrow> False | Some d \<Rightarrow> d < R)"

definition digitsValue :: "nat \<Rightarrow> string \<Rightarrow> nat" where
  "digitsValue R Z = foldl (\<lambda>acc c. acc * R + (case digitValue c of None \<Rightarrow> 0 | Some d \<Rightarrow> d)) 0 Z"

text \<open>
  \<^verbatim>\<open>parseInt(string)\<close> with no radix: leading white space is skipped, a sign is read,
  a \<^verbatim>\<open>0x\<close> prefix selects base 16, and the longest prefix of digits is the value;
  \<open>None\<close> is \<^verbatim>\<open>NaN\<close>. The value is kept exact: the handler only compares it with 3
  and with the attempt index, which rounding to a double does not change.
\<close>

definition parseInt :: "string \<Rightarrow> int option" where
  "parseInt inputString =
     (let S = dropWhile isStrWhiteSpace inputString;
          sign = (if take 1 S = ''-'' then - 1 else (1::int));
          S1 = (if take 1 S = ''+'' \<or> take 1 S = ''-'' then drop 1 S else S);
          stripPrefix = (take 2 S1 = ''0x'' \<or> take 2 S1 = ''0X'');
          R = (if stripPrefix then 16 else 10);
          S2 = (if stripPrefix then drop 2 S1 else S1);
          Z = takeWhile (isRadixDigit R) S2
      in if Z = [] then None else Some (sign * int (digitsValue R Z)))"

text \<open>
  A value of \<^verbatim>\<open>req.query\<close>: a string, an array (a repeated parameter) or an object
  (a bracketed parameter). \<open>jsString\<close> is JavaScript's \<^verbatim>\<open>String(v)\<close>.
\<close>

datatype qvalue = QStr string | QArr "qvalue list" | QObj

fun joinWith :: "string \<Rightarrow> string list \<Rightarrow> string" where
  "joinWith sep [] = []"
| "joinWith sep [x] = x"
| "joinWith sep (x # y # ys) = x @ sep @ joinWith sep (y # ys)"

fun jsString :: "qvalue \<Rightarrow> string" where
  "jsString (QStr s) = s"
| "jsString (QArr vs) = joinWith '','' (map jsString vs)"
| "jsString QObj = ''[object Object]''"

text \<open>
  The text a template literal inserts for an integer-valued number (\<^verbatim>\<open>`${n}`\<close>).
\<close>

definition digitChar :: "nat \<Rightarrow> char" where
  "digitChar d = ''0123456789'' ! (d mod 10)"

function natToString :: "nat \<Rightarrow> string" where
  "natToString n = (if n < 10 then [digitChar n] else natToString (n div 10) @ [digitChar n])"
  by pat_completeness auto
termination
  by (relation "measure id") auto

definition numberToString :: "int \<Rightarrow> string" where
  "numberToString n = (if n < 0 then ''-'' @ natToString (nat (- n)) else natToString (nat n))"

section \<open>Admission gate: the rate limiting middleware\<close>

text \<open>
  \<^verbatim>\<open>requestCounts\<close> is the \<^verbatim>\<open>Map\<close> from \<^verbatim>\<open>req.ip\<close> to a count. Every
  \<^verbatim>\<open>setTimeout(() => requestCounts.delete(ip), 60000)\<close> is a pending timer: the time in
  milliseconds at which it is due, and the key it deletes.
\<close>

datatype decision = Next | Status429

record gate =
  requestCounts :: "string \<rightharpoonup> nat"
  timers :: "(nat \<times> string) list"

definition rateLimit :: "nat \<Rightarrow> string \<Rightarrow> gate \<Rightarrow> decision \<times> gate" where
  "rateLimit now ip g =
     (let currentCount = (case requestCounts g ip of None \<Rightarrow> 0 | Some n \<Rightarrow> n)
      in if currentCount > 10 then (Status429, g)
         else (Next, g\<lparr>requestCounts := (requestCounts g)(ip \<mapsto> currentCount + 1),
                       timers := timers g @ [(now + 60000, ip)]\<rparr>))"

text \<open>
  The timer callbacks that have come due at time \<open>now\<close> run (each deletes its key) and
  leave the list of pending timers.
\<close>

definition runTimers :: "nat \<Rightarrow> gate \<Rightarrow> gate" where
  "runTimers now g =
     \<lparr>requestCounts =
        foldl (\<lambda>m ip. m(ip := None)) (requestCounts g)
          (map snd (filter (\<lambda>t. fst t \<le> now) (timers g))),
      timers = filter (\<lambda>t. now < fst t) (timers g)\<rparr>"

text \<open>A request arriving at time \<open>now\<close>: the timers due by then have run.\<close>

definition request :: "nat \<Rightarrow> string \<Rightarrow> gate \<Rightarrow> decision \<times> gate" where
  "request now ip g = rateLimit now ip (runTimers now g)"

fun requests :: "(nat \<times> string) list \<Rightarrow> gate \<Rightarrow> gate" where
  "requests [] g = g"
| "requests (e # es) g = requests es (snd (request (fst e) (snd e) g))"

text \<open>The decisions taken for one client along a sequence of requests.\<close>

fun decisionsFor :: "string \<Rightarrow> (nat \<times> string) list \<Rightarrow> gate \<Rightarrow> decision list" where
  "decisionsFor ip [] g = []"
| "decisionsFor ip (e # es) g =
     (if snd e = ip then [fst (request (fst e) (snd e) g)] else [])
       @ decisionsFor ip es (snd (request (fst e) (snd e) g))"

definition emptyGate :: gate where
  "emptyGate = \<lparr>requestCounts = Map.empty, timers = []\<rparr>"

section \<open>Identity generator\<close>

text \<open>
  \<^verbatim>\<open>getAmazonHeaders\<close>, as a function of the value \<open>r\<close> that \<^verbatim>\<open>Math.random()\<close> returns
  (a number with \<open>0 \<le> r < 1\<close>). The product \<open>r * 10\<close> is exact here; the rounded
  product of the program is itself a number from 0 up to, not including, 10, so every
  version the program can draw is \<open>chromeVersionOf r\<close> for some such \<open>r\<close>. The object is
  the list of its properties in source order.
\<close>

definition chromeVersionOf :: "real \<Rightarrow> int" where
  "chromeVersionOf r = \<lfloor>r * 10\<rfloor> + 115"

definition getAmazonHeaders :: "real \<Rightarrow> (string \<times> string) list" where
  "getAmazonHeaders r =
     (let chromeVersion = chromeVersionOf r in
      [(''authority'', ''www.amazon.com''),
       (''accept'', ''text/html,application/xhtml+xml,application/xml;q=0.9,image/webp,image/apng,*/*;q=0.8''),
       (''accept-language'', ''en-US,en;q=0.9''),
       (''cache-control'', ''max-age=0''),
       (''sec-ch-ua'',
          [CHR 0x22] @ ''Google Chrome'' @ [CHR 0x22] @ '';v='' @ [CHR 0x22]
            @ numberToString chromeVersion @ [CHR 0x22] @ '', ''
            @ [CHR 0x22] @ ''Chromium'' @ [CHR 0x22] @ '';v='' @ [CHR 0x22]
            @ numberToString chromeVersion @ [CHR 0x22] @ '', ''
            @ [CHR 0x22] @ ''Not=A?Brand'' @ [CHR 0x22] @ '';v='' @ [CHR 0x22] @ ''24'' @ [CHR 0x22]),
       (''sec-ch-ua-mobile'', ''?0''),
       (''sec-ch-ua-platform'', [CHR 0x22] @ ''Windows'' @ [CHR 0x22]),
       (''sec-fetch-dest'', ''document''),
       (''sec-fetch-mode'', ''navigate''),
       (''sec-fetch-site'', ''none''),
       (''sec-fetch-user'', ''?1''),
       (''upgrade-insecure-requests'', ''1''),
       (''user-agent'',
          ''Mozilla/5.0 (Windows NT 10.0; Win64; x64) AppleWebKit/537.36 (KHTML, like Gecko) Chrome/''
            @ numberToString chromeVersion @ ''.0.0.0 Safari/537.36'')])"

text \<open>
  Reading a version back out of a header value: the decimal number that follows the first
  occurrence of a marker (\<^verbatim>\<open>Chrome/\<close> in the user agent, \<^verbatim>\<open>"Google Chrome";v="\<close> in
  the client hint).
\<close>

fun afterMarker :: "string \<Rightarrow> string \<Rightarrow> string option" where
  "afterMarker marker [] = (if marker = [] then Some [] else None)"
| "afterMarker marker (c # cs) =
     (if prefix marker (c # cs) then Some (drop (length marker) (c # cs))
      else afterMarker marker cs)"

definition versionAfter :: "string \<Rightarrow> string \<Rightarrow> int option" where
  "versionAfter marker s =
     (case afterMarker marker s of
        None \<Rightarrow> None
      | Some rest \<Rightarrow>
          (let Z = takeWhile (isRadixDigit 10) rest
           in if Z = [] then None else Some (int (digitsValue 10 Z))))"

definition userAgentVersion :: "(string \<times> string) list \<Rightarrow> int option" where
  "userAgentVersion h =
     (case map_of h ''user-agent'' of
        None \<Rightarrow> None
      | Some ua \<Rightarrow> versionAfter ''Chrome/'' ua)"

definition clientHintVersion :: "string \<Rightarrow> (string \<times> string) list \<Rightarrow> int option" where
  "clientHintVersion brand h =
     (case map_of h ''sec-ch-ua'' of
        None \<Rightarrow> None
      | Some ch \<Rightarrow>
          versionAfter ([CHR 0x22] @ brand @ [CHR 0x22] @ '';v='' @ [CHR 0x22]) ch)"

section \<open>Render session manager\<close>

text \<open>
  The process-wide state of the server that the rendering code touches: the variable
  \<^verbatim>\<open>browserInstance\<close> (a browser is named by the number of its process), the number of
  rendering-engine processes created by \<^verbatim>\<open>puppeteer.launch\<close>, the number of calls to
  \<^verbatim>\<open>puppeteer.launch\<close> and to \<^verbatim>\<open>clearPuppeteerData\<close>, and the pages created
  and still open.
\<close>

record server =
  browserInstance :: "nat option"
  processes :: nat
  launchCalls :: nat
  dataDirResets :: nat
  pagesCreated :: nat
  openPages :: "nat list"

definition initialServer :: server where
  "initialServer = \<lparr>browserInstance = None, processes = 0, launchCalls = 0,
                     dataDirResets = 0, pagesCreated = 0, openPages = []\<rparr>"

text \<open>
  \<^verbatim>\<open>getBrowser\<close> is an \<^verbatim>\<open>async\<close> function: it runs without interruption up to each
  \<^verbatim>\<open>await\<close>, where other code may run before it resumes. A call in progress is at one
  of these points: not yet started; suspended at \<^verbatim>\<open>await clearPuppeteerData()\<close>;
  suspended at \<^verbatim>\<open>await puppeteer.launch(launchOptions)\<close> with the outcome the launch
  will have; returned. The parameter \<open>launch\<close> gives the outcome of the k-th call to
  \<^verbatim>\<open>puppeteer.launch\<close>: \<open>None\<close> when a process is created, \<open>Some e\<close> when it
  rejects.
\<close>

datatype gb_call =
    GbStart
  | GbAwaitClear
  | GbAwaitLaunch "js_error + nat"
  | GbReturned "js_error + nat"

fun gbStep :: "(nat \<Rightarrow> js_error option) \<Rightarrow> gb_call \<Rightarrow> server \<Rightarrow> gb_call \<times> server" where
  "gbStep launch GbStart s =
     (case browserInstance s of
        Some b \<Rightarrow> (GbReturned (Inr b), s)
      | None \<Rightarrow> (GbAwaitClear, s\<lparr>dataDirResets := dataDirResets s + 1\<rparr>))"
| "gbStep launch GbAwaitClear s =
     (case launch (launchCalls s) of
        None \<Rightarrow> (GbAwaitLaunch (Inr (processes s)),
                 s\<lparr>processes := processes s + 1, launchCalls := launchCalls s + 1\<rparr>)
      | Some e \<Rightarrow> (GbAwaitLaunch (Inl e), s\<lparr>launchCalls := launchCalls s + 1\<rparr>))"
| "gbStep launch (GbAwaitLaunch (Inr b)) s = (GbReturned (Inr b), s\<lparr>browserInstance := Some b\<rparr>)"
| "gbStep launch (GbAwaitLaunch (Inl e)) s = (GbReturned (Inl e), s)"
| "gbStep launch (GbReturned r) s = (GbReturned r, s)"

text \<open>
  Several calls in progress at once: a schedule names, step by step, the call that runs
  next up to its next \<^verbatim>\<open>await\<close>.
\<close>

fun runSchedule :: "(nat \<Rightarrow> js_error option) \<Rightarrow> nat list \<Rightarrow> gb_call list \<Rightarrow> server
                      \<Rightarrow> gb_call list \<times> server" where
  "runSchedule launch [] calls s = (calls, s)"
| "runSchedule launch (i # sched) calls s =
     (if i < length calls
      then (case gbStep launch (calls ! i) s of
              (c, s1) \<Rightarrow> runSchedule launch sched (calls[i := c]) s1)
      else runSchedule launch sched calls s)"

text \<open>
  One call of \<^verbatim>\<open>getBrowser\<close> run to its end with nothing else in between: the steps
  are taken until the call has returned.
\<close>

fun gbRemaining :: "gb_call \<Rightarrow> nat" where
  "gbRemaining GbStart = 3"
| "gbRemaining GbAwaitClear = 2"
| "gbRemaining (GbAwaitLaunch x) = 1"
| "gbRemaining (GbReturned r) = 0"

function gbRun :: "(nat \<Rightarrow> js_error option) \<Rightarrow> gb_call \<Rightarrow> server \<Rightarrow> (js_error + nat) \<times> server" where
  "gbRun launch (GbReturned r) s = (r, s)"
| "gbRun launch GbStart s =
     (case gbStep launch GbStart s of (c, s1) \<Rightarrow> gbRun launch c s1)"
| "gbRun launch GbAwaitClear s =
     (case gbStep launch GbAwaitClear s of (c, s1) \<Rightarrow> gbRun launch c s1)"
| "gbRun launch (GbAwaitLaunch (Inr b)) s =
     (case gbStep launch (GbAwaitLaunch (Inr b)) s of (c, s1) \<Rightarrow> gbRun launch c s1)"
| "gbRun launch (GbAwaitLaunch (Inl e)) s =
     (case gbStep launch (GbAwaitLaunch (Inl e)) s of (c, s1) \<Rightarrow> gbRun launch c s1)"
  by pat_completeness auto
termination
  by (relation "measure (\<lambda>(launch, c, s). gbRemaining c)") (auto split: option.splits)

definition getBrowser :: "(nat \<Rightarrow> js_error option) \<Rightarrow> server \<Rightarrow> (js_error + nat) \<times> server" where
  "getBrowser launch s = gbRun launch GbStart s"

section \<open>Extraction\<close>

text \<open>
  An element matched by \<^verbatim>\<open>[data-asin]\<close> is represented by what the extraction code
  reads from it: the attribute \<^verbatim>\<open>data-asin\<close>; the \<^verbatim>\<open>textContent\<close> of the first
  \<^verbatim>\<open>h2 span\<close> and of the first \<^verbatim>\<open>.a-price span\<close> descendant; the \<^verbatim>\<open>aria-label\<close> of
  the first descendant matching \<^verbatim>\<open>[aria-label*="stars"]\<close>; the first \<^verbatim>\<open>img.s-image\<close>;
  and its descendant anchors in document order. An anchor has its \<^verbatim>\<open>href\<close> attribute,
  its \<^verbatim>\<open>href\<close> property (the attribute resolved against the document's URL, where the
  DOM implementation can) and the \<^verbatim>\<open>pathname\<close> of \<^verbatim>\<open>new URL(href)\<close>, \<open>None\<close> when
  that constructor throws.
\<close>

record anchor =
  hrefAttr :: string
  href :: string
  pathname :: "string option"

record image =
  srcAttr :: "string option"
  src :: string

record item =
  dataAsin :: string
  h2Span :: "string option"
  priceSpan :: "string option"
  starsLabel :: "string option"
  sImage :: "image option"
  anchors :: "anchor list"

text \<open>\<^verbatim>\<open>arr.map(f)\<close> where \<open>f\<close> may throw: the first exception ends the call.\<close>

fun mapThrowing :: "('a \<Rightarrow> js_error + 'b) \<Rightarrow> 'a list \<Rightarrow> js_error + 'b list" where
  "mapThrowing f [] = Inr []"
| "mapThrowing f (x # xs) =
     (case f x of
        Inl e \<Rightarrow> Inl e
      | Inr y \<Rightarrow> (case mapThrowing f xs of Inl e \<Rightarrow> Inl e | Inr ys \<Rightarrow> Inr (y # ys)))"

text \<open>The callback of \<^verbatim>\<open>.map\<close> in the function passed to \<^verbatim>\<open>page.evaluate\<close>.\<close>

definition puppeteerProduct :: "item \<Rightarrow> js_error + product" where
  "puppeteerProduct it =
     (let asin = dataAsin it;
          linkElement = find (\<lambda>a. includesStr (hrefAttr a) ''/dp/''
                                 \<or> includesStr (hrefAttr a) ''/gp/product/'') (anchors it)
      in case (case linkElement of
                 Some a \<Rightarrow> (case pathname a of
                              None \<Rightarrow> Inl ''Invalid URL''
                            | Some p \<Rightarrow> Inr (''https://www.amazon.com'' @ p))
               | None \<Rightarrow> Inr (''https://www.amazon.com/dp/'' @ asin)) of
           Inl e \<Rightarrow> Inl e
         | Inr l \<Rightarrow>
             Inr \<lparr>title = map_option trim (h2Span it),
                  price = map_option trim (priceSpan it),
                  rating = starsLabel it,
                  imageUrl = (case sImage it of None \<Rightarrow> None | Some i \<Rightarrow> srcAttr i),
                  link = Some l\<rparr>)"

definition evaluateExtract :: "item list \<Rightarrow> js_error + product list" where
  "evaluateExtract its =
     (case mapThrowing puppeteerProduct its of
        Inl e \<Rightarrow> Inl e
      | Inr ps \<Rightarrow> Inr (filter (\<lambda>p. truthy (title p) \<and> truthy (price p)) ps))"

text \<open>The callback of \<^verbatim>\<open>.map\<close> in \<^verbatim>\<open>scrapeWithAxios\<close>.\<close>

definition axiosProduct :: "item \<Rightarrow> product" where
  "axiosProduct it =
     \<lparr>title = map_option trim (h2Span it),
      price = map_option trim (priceSpan it),
      rating = starsLabel it,
      imageUrl = map_option src (sImage it),
      link = map_option href (find (\<lambda>a. includesStr (hrefAttr a) ''/dp/'') (anchors it))\<rparr>"

section \<open>Rendering backend\<close>

text \<open>
  What the browser and the remote site do during one call of \<^verbatim>\<open>scrapeWithPuppeteer\<close>:
  the outcome of each awaited step (\<open>Some e\<close> when it rejects with message \<open>e\<close>), whether
  \<^verbatim>\<open>#captchacharacters\<close> is found at the first and at the second check, and the
  \<^verbatim>\<open>[data-asin]\<close> elements of the page when \<^verbatim>\<open>page.evaluate\<close> runs. \<open>setupError\<close>
  stands for \<^verbatim>\<open>setUserAgent\<close>, \<^verbatim>\<open>setViewport\<close> and \<^verbatim>\<open>setRequestInterception\<close>;
  \<open>gotoError\<close> is the 30 s navigation timeout or a navigation failure; \<open>waitError\<close>
  is the 10 s timeout of \<^verbatim>\<open>waitForSelector\<close>.
\<close>

record page_world =
  launchOutcome :: "nat \<Rightarrow> js_error option"
  newPageError :: "js_error option"
  setupError :: "js_error option"
  gotoError :: "js_error option"
  captchaFirst :: bool
  solveError :: "js_error option"
  captchaSecond :: bool
  waitError :: "js_error option"
  pageItems :: "item list"

text \<open>The statements of the \<^verbatim>\<open>try\<close> block after \<^verbatim>\<open>browser.newPage()\<close>.\<close>

definition onPage :: "page_world \<Rightarrow> js_error + product list" where
  "onPage w =
     (case setupError w of Some e \<Rightarrow> Inl e | None \<Rightarrow>
      case gotoError w of Some e \<Rightarrow> Inl e | None \<Rightarrow>
      case (if captchaFirst w
            then (case solveError w of
                    Some e \<Rightarrow> Some e
                  | None \<Rightarrow> if captchaSecond w then Some ''CAPTCHA verification required''
                            else None)
            else None) of Some e \<Rightarrow> Inl e | None \<Rightarrow>
      case waitError w of Some e \<Rightarrow> Inl e | None \<Rightarrow>
      evaluateExtract (pageItems w))"

text \<open>
  \<^verbatim>\<open>scrapeWithPuppeteer\<close>: the result and the server state it leaves. The source's
  \<^verbatim>\<open>try\<close> block ends after \<^verbatim>\<open>page.evaluate\<close> with no \<^verbatim>\<open>catch\<close> or \<^verbatim>\<open>finally\<close>
  clause, and no statement of the file closes a page: every path returns the state in which
  the page was opened.
\<close>

definition scrapeWithPuppeteer :: "page_world \<Rightarrow> server \<Rightarrow> (js_error + product list) \<times> server" where
  "scrapeWithPuppeteer w s =
     (case getBrowser (launchOutcome w) s of
        (Inl e, s1) \<Rightarrow> (Inl e, s1)
      | (Inr browser, s1) \<Rightarrow>
          (case newPageError w of
             Some e \<Rightarrow> (Inl e, s1)
           | None \<Rightarrow>
               (let page = pagesCreated s1;
                    s2 = s1\<lparr>pagesCreated := page + 1, openPages := openPages s1 @ [page]\<rparr>
                in (onPage w, s2))))"

section \<open>Raw-fetch backend\<close>

text \<open>
  The outcome of \<^verbatim>\<open>axios.get\<close>: a rejection with \<^verbatim>\<open>error.response?.status\<close> and
  \<^verbatim>\<open>error.message\<close>, or the response body. \<open>bodyItems\<close> are the \<^verbatim>\<open>[data-asin]\<close>
  elements of \<^verbatim>\<open>new JSDOM(data)\<close>.
\<close>

datatype axios_outcome = AxiosError "nat option" string | AxiosData string

record fetch_world =
  getOutcome :: axios_outcome
  bodyItems :: "item list"

definition scrapeWithAxios :: "fetch_world \<Rightarrow> js_error + product list" where
  "scrapeWithAxios w =
     (case getOutcome w of
        AxiosError status message \<Rightarrow>
          Inl (if status = Some 503 then ''Amazon is blocking requests'' else message)
      | AxiosData body \<Rightarrow>
          if includesStr body ''robot-verification'' then Inl ''CAPTCHA detected''
          else Inr (filter (\<lambda>p. truthy (title p) \<and> truthy (price p))
                      (map axiosProduct (bodyItems w))))"

section \<open>Orchestrator: the \<^verbatim>\<open>/api/scrape\<close> handler\<close>

text \<open>
  The handler calls \<^verbatim>\<open>scrapeWithPuppeteer\<close> and \<^verbatim>\<open>scrapeWithAxios\<close>, whose results
  depend on the remote site. The outcome of the k-th call (counted from 0) to each backend
  is a parameter; the handler records every backend call and every delay in a trace.
\<close>

datatype event = Sleep int | CallPuppeteer | CallAxios

record backends =
  puppeteerOutcome :: "nat \<Rightarrow> js_error + product list"
  axiosOutcome :: "nat \<Rightarrow> js_error + product list"

record hstate =
  products :: "product list"
  lastError :: "js_error option"
  trace :: "event list"

definition callPuppeteer :: "backends \<Rightarrow> hstate \<Rightarrow> (js_error + product list) \<times> hstate" where
  "callPuppeteer w s =
     (puppeteerOutcome w (count_list (trace s) CallPuppeteer),
      s\<lparr>trace := trace s @ [CallPuppeteer]\<rparr>)"

definition callAxios :: "backends \<Rightarrow> hstate \<Rightarrow> (js_error + product list) \<times> hstate" where
  "callAxios w s =
     (axiosOutcome w (count_list (trace s) CallAxios),
      s\<lparr>trace := trace s @ [CallAxios]\<rparr>)"

definition sleep :: "int \<Rightarrow> hstate \<Rightarrow> hstate" where
  "sleep delay s = s\<lparr>trace := trace s @ [Sleep delay]\<rparr>"

text \<open>
  The body of the \<^verbatim>\<open>catch (error)\<close> block of the retry loop: the error is stored, and on
  the last attempt index the raw-fetch backend is tried, its own error replacing the
  stored one.
\<close>

definition onPuppeteerError :: "backends \<Rightarrow> int \<Rightarrow> int \<Rightarrow> js_error \<Rightarrow> hstate \<Rightarrow> hstate" where
  "onPuppeteerError w retryCount attempt e s =
     (let s1 = s\<lparr>lastError := Some e\<rparr>
      in if attempt = retryCount
         then (case callAxios w s1 of
                 (Inr ps, s2) \<Rightarrow> s2\<lparr>products := ps\<rparr>
               | (Inl axiosError, s2) \<Rightarrow> s2\<lparr>lastError := Some axiosError\<rparr>)
         else s1)"

text \<open>
  \<^verbatim>\<open>for (let attempt = 0; attempt <= retryCount; attempt++)\<close>, started at any attempt
  index. \<^verbatim>\<open>break\<close> is the branch that returns without a recursive call.
\<close>

function scrapeLoop :: "backends \<Rightarrow> int \<Rightarrow> int \<Rightarrow> hstate \<Rightarrow> hstate" where
  "scrapeLoop w retryCount attempt s =
     (if attempt \<le> retryCount
      then (case callPuppeteer w (if attempt > 0 then sleep (2000 * attempt) s else s) of
              (Inr ps, s1) \<Rightarrow>
                if length ps > 0 then s1\<lparr>products := ps\<rparr>
                else scrapeLoop w retryCount (attempt + 1) (s1\<lparr>products := ps\<rparr>)
            | (Inl e, s1) \<Rightarrow>
                scrapeLoop w retryCount (attempt + 1) (onPuppeteerError w retryCount attempt e s1))
      else s)"
  by pat_completeness auto
termination
  by (relation "measure (\<lambda>(w, retryCount, attempt, s). nat (retryCount + 1 - attempt))") auto

declare scrapeLoop.simps [simp del]

text \<open>\<^verbatim>\<open>Math.min(parseInt(retry) || 0, 3)\<close>, with the default \<^verbatim>\<open>retry = 0\<close>.\<close>

definition retryCountOf :: "qvalue option \<Rightarrow> int" where
  "retryCountOf retry =
     min (case parseInt (case retry of None \<Rightarrow> ''0'' | Some v \<Rightarrow> jsString v) of
            None \<Rightarrow> 0
          | Some n \<Rightarrow> n) 3"

datatype response =
    ErrorJson nat string string
  | SuccessJson nat "product list"

text \<open>
  The handler of \<^verbatim>\<open>GET /api/scrape\<close>: the response and the trace of backend calls
  and delays. An error response is its status, its \<^verbatim>\<open>error\<close> and its \<^verbatim>\<open>details\<close>
  (for status 400, its \<^verbatim>\<open>example\<close>); a success is its \<^verbatim>\<open>count\<close> and \<^verbatim>\<open>products\<close>. None of the modelled steps throws outside the inner \<^verbatim>\<open>try\<close>, so the outer
  \<^verbatim>\<open>catch\<close> (status 500) has no branch.
\<close>

definition badRequest :: response where
  "badRequest = ErrorJson 400 ''Valid keyword parameter is required'' ''/api/scrape?keyword=laptop''"

definition scrapeHandler :: "backends \<Rightarrow> qvalue option \<Rightarrow> qvalue option \<Rightarrow> response \<times> event list" where
  "scrapeHandler w keyword retry =
     (case keyword of
        Some (QStr k) \<Rightarrow>
          if k = [] then (badRequest, [])
          else
            (let retryCount = retryCountOf retry;
                 s = scrapeLoop w retryCount 0 \<lparr>products = [], lastError = None, trace = []\<rparr>
             in if length (products s) = 0
                then (ErrorJson 404 ''No products found''
                        (case lastError s of
                                 None \<Rightarrow> ''Try different keywords''
                               | Some m \<Rightarrow> if m = [] then ''Try different keywords'' else m),
                      trace s)
                else (SuccessJson (length (products s))
                        (filter (\<lambda>p. truthy (title p) \<and> truthy (price p)) (products s)),
                      trace s))
      | _ \<Rightarrow> (badRequest, []))"

text \<open>
  The attempt schedule the specification describes for attempts \<open>0..m\<close>: no delay before
  attempt 0, a delay of \<open>2000 * i\<close> ms before attempt \<open>i > 0\<close>.
\<close>

definition attemptEvents :: "int \<Rightarrow> event list" where
  "attemptEvents i = (if i > 0 then [Sleep (2000 * i)] else []) @ [CallPuppeteer]"

definition backoffSchedule :: "int \<Rightarrow> int \<Rightarrow> event list" where
  "backoffSchedule a m = concat (map attemptEvents [a..m])"


text \<open>
  A backend call yields zero records when it throws or returns the empty list.
\<close>

definition zeroRecords :: "js_error + product list \<Rightarrow> bool" where
  "zeroRecords x = (case x of Inl e \<Rightarrow> True | Inr ps \<Rightarrow> ps = [])"

section \<open>Observations and sample inputs\<close>

text \<open>\<^verbatim>\<open>requestCounts.get(ip) || 0\<close>: the count the gate holds for a client.\<close>

definition currentCountOf :: "gate \<Rightarrow> string \<Rightarrow> nat" where
  "currentCountOf g ip = (case requestCounts g ip of None \<Rightarrow> 0 | Some n \<Rightarrow> n)"

text \<open>
  The decisions for \<open>k\<close> successive requests of a client whose count is \<open>n0\<close>, when no
  timer of that client falls due in between.
\<close>

definition expectedDecisions :: "nat \<Rightarrow> nat \<Rightarrow> decision list" where
  "expectedDecisions n0 k = map (\<lambda>j. if 10 < n0 + j then Status429 else Next) [0..<k]"

text \<open>Twelve requests of one client, one second apart.\<close>

definition requestsEverySecond :: "string \<Rightarrow> (nat \<times> string) list" where
  "requestsEverySecond ip =
     [(0, ip), (1000, ip), (2000, ip), (3000, ip), (4000, ip), (5000, ip),
      (6000, ip), (7000, ip), (8000, ip), (9000, ip), (10000, ip), (11000, ip)]"

text \<open>
  Two requests of one client 30 s apart, and a third one second after the entry has been
  removed.
\<close>

definition staleTimerRequests :: "(nat \<times> string) list" where
  "staleTimerRequests = [(0, ''10.0.0.1''), (30000, ''10.0.0.1''), (61000, ''10.0.0.1'')]"

text \<open>
  Two requests of one client 59 s apart, then twelve requests one second apart from 61 s
  on, and two more at 119 s and 120 s.
\<close>

definition windowOverrunRequests :: "(nat \<times> string) list" where
  "windowOverrunRequests =
     [(0, ''10.0.0.1''), (59000, ''10.0.0.1''),
      (61000, ''10.0.0.1''), (62000, ''10.0.0.1''), (63000, ''10.0.0.1''),
      (64000, ''10.0.0.1''), (65000, ''10.0.0.1''), (66000, ''10.0.0.1''),
      (67000, ''10.0.0.1''), (68000, ''10.0.0.1''), (69000, ''10.0.0.1''),
      (70000, ''10.0.0.1''), (71000, ''10.0.0.1''), (72000, ''10.0.0.1''),
      (119000, ''10.0.0.1''), (120000, ''10.0.0.1'')]"

definition launchSucceeds :: "nat \<Rightarrow> js_error option" where
  "launchSucceeds k = None"

definition laptopItem :: item where
  "laptopItem =
     \<lparr>dataAsin = ''B0TEST0001'',
      h2Span = Some ''  Laptop 15 inch '',
      priceSpan = Some ''$499.99'',
      starsLabel = Some ''4.5 out of 5 stars'',
      sImage = Some \<lparr>srcAttr = Some ''https://m.media-amazon.com/images/I/1.jpg'',
                      src = ''https://m.media-amazon.com/images/I/1.jpg''\<rparr>,
      anchors = [\<lparr>hrefAttr = ''/Laptop-15/dp/B0TEST0001/ref=sr_1_1'',
                  href = ''https://www.amazon.com/Laptop-15/dp/B0TEST0001/ref=sr_1_1'',
                  pathname = Some ''/Laptop-15/dp/B0TEST0001/ref=sr_1_1''\<rparr>]\<rparr>"

text \<open>The same element without a price, and without any product anchor.\<close>

definition unpricedItem :: item where
  "unpricedItem = laptopItem\<lparr>dataAsin := ''B0TEST0002'', priceSpan := None\<rparr>"

definition unlinkedItem :: item where
  "unlinkedItem = laptopItem\<lparr>dataAsin := ''B0TEST0003'', anchors := []\<rparr>"

text \<open>A results page on which every step succeeds, and a response body that parses.\<close>

definition resultsPage :: "item list \<Rightarrow> page_world" where
  "resultsPage its =
     \<lparr>launchOutcome = launchSucceeds, newPageError = None, setupError = None,
      gotoError = None, captchaFirst = False, solveError = None, captchaSecond = False,
      waitError = None, pageItems = its\<rparr>"

definition timedOutPage :: page_world where
  "timedOutPage =
     (resultsPage [])\<lparr>gotoError := Some ''Navigation timeout of 30000 ms exceeded''\<rparr>"

definition resultsBody :: "item list \<Rightarrow> fetch_world" where
  "resultsBody its =
     \<lparr>getOutcome = AxiosData ''<html><body>results</body></html>'', bodyItems = its\<rparr>"

definition laptopProduct :: product where
  "laptopProduct =
     \<lparr>title = Some ''Laptop 15 inch'', price = Some ''$499.99'',
      rating = Some ''4.5 out of 5 stars'',
      imageUrl = Some ''https://m.media-amazon.com/images/I/1.jpg'',
      link = Some ''https://www.amazon.com/Laptop-15/dp/B0TEST0001/ref=sr_1_1''\<rparr>"

text \<open>
  Backends that return the empty list on every call, and backends of which the rendering
  one throws on every call.
\<close>

definition emptyBackends :: backends where
  "emptyBackends = \<lparr>puppeteerOutcome = (\<lambda>k. Inr []), axiosOutcome = (\<lambda>k. Inr [])\<rparr>"

definition failingBackends :: backends where
  "failingBackends =
     \<lparr>puppeteerOutcome = (\<lambda>k. Inl ''Navigation timeout of 30000 ms exceeded''),
      axiosOutcome = (\<lambda>k. Inr [laptopProduct])\<rparr>"

section \<open>Retry loop: attempts and backoff\<close>

lemma trace_onPuppeteerError:
  "trace (onPuppeteerError w r a e s) = trace s @ (if a = r then [CallAxios] else [])"
  by (simp add: onPuppeteerError_def callAxios_def Let_def split: sum.splits)

lemma backoffSchedule_step:
  "a \<le> m \<Longrightarrow> backoffSchedule a m = attemptEvents a @ backoffSchedule (a + 1) m"
  by (simp add: backoffSchedule_def upto_rec1)

lemma backoffSchedule_single: "backoffSchedule a a = attemptEvents a"
  by (simp add: backoffSchedule_def)

lemma trace_callPuppeteer_step:
  "trace (snd (callPuppeteer w (if a > 0 then sleep (2000 * a) s else s)))
     = trace s @ attemptEvents a"
  by (simp add: callPuppeteer_def sleep_def attemptEvents_def)

lemma scrapeLoop_trace:
  "a \<le> r \<Longrightarrow>
   \<exists>m. a \<le> m \<and> m \<le> r \<and>
       (trace (scrapeLoop w r a s) = trace s @ backoffSchedule a m \<or>
        trace (scrapeLoop w r a s) = trace s @ backoffSchedule a m @ [CallAxios])"
proof (induction w r a s rule: scrapeLoop.induct)
  case (1 w r a s)
  let ?s0 = "if a > 0 then sleep (2000 * a) s else s"
  obtain res s1 where cp: "callPuppeteer w ?s0 = (res, s1)"
    by (cases "callPuppeteer w ?s0")
  have tr1: "trace s1 = trace s @ attemptEvents a"
    using trace_callPuppeteer_step [of w a s] cp by simp
  show ?case
  proof (cases res)
    case (Inr ps)
    show ?thesis
    proof (cases "length ps > 0")
      case True
      have "trace (scrapeLoop w r a s) = trace s @ backoffSchedule a a"
        using "1.prems" cp Inr True tr1
        by (subst scrapeLoop.simps) (simp add: backoffSchedule_single)
      then show ?thesis using "1.prems" by blast
    next
      case False
      have unf: "scrapeLoop w r a s = scrapeLoop w r (a + 1) (s1\<lparr>products := ps\<rparr>)"
        using "1.prems" cp Inr False by (subst scrapeLoop.simps) simp
      show ?thesis
      proof (cases "a + 1 \<le> r")
        case True
        from "1.IH"(2) [OF "1.prems" cp [symmetric] Inr _ True] False
        obtain m where m: "a + 1 \<le> m" "m \<le> r"
          "trace (scrapeLoop w r (a + 1) (s1\<lparr>products := ps\<rparr>))
             = trace (s1\<lparr>products := ps\<rparr>) @ backoffSchedule (a + 1) m \<or>
           trace (scrapeLoop w r (a + 1) (s1\<lparr>products := ps\<rparr>))
             = trace (s1\<lparr>products := ps\<rparr>) @ backoffSchedule (a + 1) m @ [CallAxios]"
          by auto
        have "a \<le> m" using m(1) by simp
        then have "backoffSchedule a m = attemptEvents a @ backoffSchedule (a + 1) m"
          by (rule backoffSchedule_step)
        with m unf tr1 \<open>a \<le> m\<close> show ?thesis
          by (intro exI [of _ m]) auto
      next
        case False
        then have "scrapeLoop w r (a + 1) (s1\<lparr>products := ps\<rparr>) = s1\<lparr>products := ps\<rparr>"
          by (subst scrapeLoop.simps) simp
        with unf tr1 have "trace (scrapeLoop w r a s) = trace s @ backoffSchedule a a"
          by (simp add: backoffSchedule_single)
        then show ?thesis using "1.prems" by blast
      qed
    qed
  next
    case (Inl e)
    let ?s2 = "onPuppeteerError w r a e s1"
    have unf: "scrapeLoop w r a s = scrapeLoop w r (a + 1) ?s2"
      using "1.prems" cp Inl by (subst scrapeLoop.simps) simp
    have tr2: "trace ?s2 = trace s @ attemptEvents a @ (if a = r then [CallAxios] else [])"
      using tr1 by (simp add: trace_onPuppeteerError)
    show ?thesis
    proof (cases "a + 1 \<le> r")
      case True
      then have ne: "a \<noteq> r" by simp
      from "1.IH"(1) [OF "1.prems" cp [symmetric] Inl True]
      obtain m where m: "a + 1 \<le> m" "m \<le> r"
        "trace (scrapeLoop w r (a + 1) ?s2) = trace ?s2 @ backoffSchedule (a + 1) m \<or>
         trace (scrapeLoop w r (a + 1) ?s2) = trace ?s2 @ backoffSchedule (a + 1) m @ [CallAxios]"
        by auto
      have "a \<le> m" using m(1) by simp
      then have "backoffSchedule a m = attemptEvents a @ backoffSchedule (a + 1) m"
        by (rule backoffSchedule_step)
      with m unf tr2 ne \<open>a \<le> m\<close> show ?thesis
        by (intro exI [of _ m]) auto
    next
      case False
      with "1.prems" have eq: "a = r" by simp
      from False have "scrapeLoop w r (a + 1) ?s2 = ?s2"
        by (subst scrapeLoop.simps) simp
      with unf tr2 eq
      have "trace (scrapeLoop w r a s) = trace s @ backoffSchedule a a @ [CallAxios]"
        by (simp add: backoffSchedule_single)
      then show ?thesis using "1.prems" by blast
    qed
  qed
qed

lemma count_backoffSchedule:
  "a \<le> m + 1 \<Longrightarrow> count_list (backoffSchedule a m) CallPuppeteer = nat (m + 1 - a)"
proof (induction "nat (m + 1 - a)" arbitrary: a)
  case 0
  then have "m < a" by simp
  then show ?case by (simp add: backoffSchedule_def)
next
  case (Suc n)
  then have le: "a \<le> m" by simp
  have "n = nat (m + 1 - (a + 1))" using Suc.hyps(2) by simp
  from Suc.hyps(1) [OF this] le
  have "count_list (backoffSchedule (a + 1) m) CallPuppeteer = nat (m + 1 - (a + 1))" by simp
  with le show ?case
    by (simp add: backoffSchedule_step attemptEvents_def nat_diff_distrib Suc_nat_eq_nat_zadd1)
qed

lemma count_axios_backoffSchedule: "count_list (backoffSchedule a m) CallAxios = 0"
  by (simp add: backoffSchedule_def attemptEvents_def count_list_0_iff)

lemma backoffSchedule_three:
  "backoffSchedule 0 3
     = [CallPuppeteer, Sleep 2000, CallPuppeteer, Sleep 4000, CallPuppeteer,
        Sleep 6000, CallPuppeteer]"
  by (simp add: backoffSchedule_def attemptEvents_def upto_rec1)

lemma scrapeHandler_trace:
  "k \<noteq> [] \<Longrightarrow>
   snd (scrapeHandler w (Some (QStr k)) retry)
     = trace (scrapeLoop w (retryCountOf retry) 0 \<lparr>products = [], lastError = None, trace = []\<rparr>)"
  by (simp add: scrapeHandler_def Let_def)

lemma retryCountOf_le: "retryCountOf retry \<le> 3"
  by (simp add: retryCountOf_def)

lemma retryCountOf_numeral:
  "retryCountOf (Some (QStr ''0'')) = 0"
  "retryCountOf (Some (QStr ''2'')) = 2"
  "retryCountOf (Some (QStr ''3'')) = 3"
  by (simp_all add: retryCountOf_def parseInt_def isStrWhiteSpace_def isRadixDigit_def
      digitValue_def digitsValue_def)

text \<open>
  C9. For every retry budget \<open>r\<close> in \<open>0..3\<close> the handler's trace is the schedule of the
  attempts \<open>0..m\<close> for some \<open>m \<le> r\<close>, followed by at most one call of the raw-fetch
  backend: no delay before attempt 0, a delay of \<open>2000 * i\<close> ms directly before attempt
  \<open>i > 0\<close>, and at most \<open>r + 1\<close> calls of the rendering backend, all before the fallback.
\<close>

theorem C9_backoff_schedule:
  assumes "k \<noteq> []" and "0 \<le> retryCountOf retry"
  shows "\<exists>m. 0 \<le> m \<and> m \<le> retryCountOf retry \<and> retryCountOf retry \<le> 3 \<and>
           (snd (scrapeHandler w (Some (QStr k)) retry) = backoffSchedule 0 m \<or>
            snd (scrapeHandler w (Some (QStr k)) retry) = backoffSchedule 0 m @ [CallAxios]) \<and>
           count_list (snd (scrapeHandler w (Some (QStr k)) retry)) CallPuppeteer
             \<le> nat (retryCountOf retry + 1)"
proof -
  let ?T = "snd (scrapeHandler w (Some (QStr k)) retry)"
  from scrapeLoop_trace [OF assms(2), of w "\<lparr>products = [], lastError = None, trace = []\<rparr>"]
  obtain m where m: "0 \<le> m" "m \<le> retryCountOf retry"
     "?T = backoffSchedule 0 m \<or> ?T = backoffSchedule 0 m @ [CallAxios]"
    using scrapeHandler_trace [OF assms(1), of w retry] by auto
  have "count_list ?T CallPuppeteer = nat (m + 1)"
    using m(1,3) count_backoffSchedule [of 0 m] by auto
  with m retryCountOf_le [of retry] show ?thesis
    by (intro exI [of _ m]) auto
qed

text \<open>
  The theorem at budget 3 with a rendering backend that throws on every call.
\<close>

theorem C9_backoff_schedule_witness:
  "''laptop'' \<noteq> [] \<and> 0 \<le> retryCountOf (Some (QStr ''3'')) \<and>
   (\<exists>m. 0 \<le> m \<and> m \<le> 3 \<and>
      (snd (scrapeHandler failingBackends (Some (QStr ''laptop'')) (Some (QStr ''3'')))
         = backoffSchedule 0 m \<or>
       snd (scrapeHandler failingBackends (Some (QStr ''laptop'')) (Some (QStr ''3'')))
         = backoffSchedule 0 m @ [CallAxios]) \<and>
      count_list (snd (scrapeHandler failingBackends (Some (QStr ''laptop'')) (Some (QStr ''3''))))
        CallPuppeteer \<le> 4)"
proof -
  have h1: "''laptop'' \<noteq> []" by simp
  have h2: "0 \<le> retryCountOf (Some (QStr ''3''))" by (simp add: retryCountOf_numeral)
  from C9_backoff_schedule [OF h1 h2, of failingBackends] h1 h2 show ?thesis
    by (simp add: retryCountOf_numeral)
qed

section \<open>Retry loop: the fallback\<close>

lemma scrapeLoop_no_records:
  "0 \<le> a \<Longrightarrow> a \<le> r \<Longrightarrow> count_list (trace s) CallPuppeteer = nat a \<Longrightarrow>
   (\<And>i. nat a \<le> i \<Longrightarrow> i \<le> nat r \<Longrightarrow> zeroRecords (puppeteerOutcome w i)) \<Longrightarrow>
   trace (scrapeLoop w r a s)
     = trace s @ backoffSchedule a r
         @ (if isl (puppeteerOutcome w (nat r)) then [CallAxios] else [])"
proof (induction w r a s rule: scrapeLoop.induct)
  case (1 w r a s)
  let ?s0 = "if a > 0 then sleep (2000 * a) s else s"
  let ?res = "puppeteerOutcome w (nat a)"
  obtain s1 where cp: "callPuppeteer w ?s0 = (?res, s1)"
    using "1.prems"(3) by (simp add: callPuppeteer_def sleep_def)
  have tr1: "trace s1 = trace s @ attemptEvents a"
    using trace_callPuppeteer_step [of w a s] cp by simp
  have cnt1: "count_list (trace s1) CallPuppeteer = nat (a + 1)"
    using tr1 "1.prems"(1,3) by (simp add: attemptEvents_def nat_add_distrib)
  have zr: "zeroRecords ?res" using "1.prems"(4) [of "nat a"] "1.prems"(1,2) by simp
  have later: "\<And>i. nat (a + 1) \<le> i \<Longrightarrow> i \<le> nat r \<Longrightarrow> zeroRecords (puppeteerOutcome w i)"
    using "1.prems"(1,4) by (simp add: nat_add_distrib)
  show ?case
  proof (cases ?res)
    case (Inr ps)
    then have ps: "ps = []" using zr by (simp add: zeroRecords_def)
    have unf: "scrapeLoop w r a s = scrapeLoop w r (a + 1) (s1\<lparr>products := ps\<rparr>)"
      using "1.prems"(2) cp Inr ps by (subst scrapeLoop.simps) simp
    show ?thesis
    proof (cases "a + 1 \<le> r")
      case True
      have "trace (scrapeLoop w r (a + 1) (s1\<lparr>products := ps\<rparr>))
              = trace (s1\<lparr>products := ps\<rparr>) @ backoffSchedule (a + 1) r
                  @ (if isl (puppeteerOutcome w (nat r)) then [CallAxios] else [])"
        using "1.IH"(2) [OF "1.prems"(2) cp [symmetric] Inr _ _ True _ later]
              ps cnt1 "1.prems"(1) by simp
      with unf tr1 "1.prems"(2) show ?thesis
        by (simp add: backoffSchedule_step)
    next
      case False
      with "1.prems" have eq: "a = r" by simp
      from False have "scrapeLoop w r (a + 1) (s1\<lparr>products := ps\<rparr>) = s1\<lparr>products := ps\<rparr>"
        by (subst scrapeLoop.simps) simp
      with unf tr1 eq Inr show ?thesis
        by (simp add: backoffSchedule_single)
    qed
  next
    case (Inl e)
    let ?s2 = "onPuppeteerError w r a e s1"
    have unf: "scrapeLoop w r a s = scrapeLoop w r (a + 1) ?s2"
      using "1.prems"(2) cp Inl by (subst scrapeLoop.simps) simp
    have tr2: "trace ?s2 = trace s @ attemptEvents a @ (if a = r then [CallAxios] else [])"
      using tr1 by (simp add: trace_onPuppeteerError)
    show ?thesis
    proof (cases "a + 1 \<le> r")
      case True
      then have ne: "a \<noteq> r" by simp
      have cnt2: "count_list (trace ?s2) CallPuppeteer = nat (a + 1)"
        using tr2 ne cnt1 tr1 by simp
      have "trace (scrapeLoop w r (a + 1) ?s2)
              = trace ?s2 @ backoffSchedule (a + 1) r
                  @ (if isl (puppeteerOutcome w (nat r)) then [CallAxios] else [])"
        using "1.IH"(1) [OF "1.prems"(2) cp [symmetric] Inl _ True cnt2 later]
              "1.prems"(1) by simp
      with unf tr2 ne "1.prems"(2) show ?thesis
        by (simp add: backoffSchedule_step)
    next
      case False
      with "1.prems" have eq: "a = r" by simp
      from False have "scrapeLoop w r (a + 1) ?s2 = ?s2"
        by (subst scrapeLoop.simps) simp
      with unf tr2 eq Inl show ?thesis
        by (simp add: backoffSchedule_single)
    qed
  qed
qed

lemma handler_trace_no_records:
  assumes "k \<noteq> []" and "0 \<le> retryCountOf retry"
    and "\<And>i. i \<le> nat (retryCountOf retry) \<Longrightarrow> zeroRecords (puppeteerOutcome w i)"
  shows "snd (scrapeHandler w (Some (QStr k)) retry)
           = backoffSchedule 0 (retryCountOf retry)
               @ (if isl (puppeteerOutcome w (nat (retryCountOf retry))) then [CallAxios] else [])"
  using scrapeLoop_no_records [of 0 "retryCountOf retry"
          "\<lparr>products = [], lastError = None, trace = []\<rparr>" w] assms
  by (simp add: scrapeHandler_trace)

text \<open>
  C1, as the code has it. For every retry budget \<open>r\<close> in \<open>0..3\<close>, if every rendering
  attempt \<open>0..r\<close> yields zero records, the rendering backend is called \<open>r + 1\<close> times and
  the raw-fetch backend is called exactly once when the last attempt (index \<open>r\<close>) threw,
  and not at all when the last attempt returned an empty list. With budget 0 the rendering
  backend is called exactly once and, when it throws, the raw-fetch backend exactly once.
\<close>

theorem C1_raw_fetch_after_final_error:
  assumes "k \<noteq> []" and "0 \<le> retryCountOf retry"
    and "\<And>i. i \<le> nat (retryCountOf retry) \<Longrightarrow> zeroRecords (puppeteerOutcome w i)"
  shows "count_list (snd (scrapeHandler w (Some (QStr k)) retry)) CallPuppeteer
           = nat (retryCountOf retry) + 1
       \<and> count_list (snd (scrapeHandler w (Some (QStr k)) retry)) CallAxios
           = (if isl (puppeteerOutcome w (nat (retryCountOf retry))) then 1 else 0)"
proof -
  have "count_list (backoffSchedule 0 (retryCountOf retry)) CallPuppeteer
          = nat (retryCountOf retry) + 1"
    using assms(2) count_backoffSchedule [of 0 "retryCountOf retry"]
    by (simp add: nat_add_distrib)
  then show ?thesis
    using handler_trace_no_records [OF assms]
    by (simp add: count_axios_backoffSchedule)
qed

text \<open>
  The theorem at budget 2 and at budget 0, with a rendering backend that throws on every
  call: three rendering calls, respectively one, and one raw-fetch call.
\<close>

theorem C1_raw_fetch_after_final_error_witness:
  "''laptop'' \<noteq> [] \<and> 0 \<le> retryCountOf (Some (QStr ''2''))
   \<and> zeroRecords (puppeteerOutcome failingBackends 0)
   \<and> zeroRecords (puppeteerOutcome failingBackends 1)
   \<and> zeroRecords (puppeteerOutcome failingBackends 2)
   \<and> count_list (snd (scrapeHandler failingBackends (Some (QStr ''laptop'')) (Some (QStr ''2''))))
        CallPuppeteer = 3
   \<and> count_list (snd (scrapeHandler failingBackends (Some (QStr ''laptop'')) (Some (QStr ''2''))))
        CallAxios = 1
   \<and> count_list (snd (scrapeHandler failingBackends (Some (QStr ''laptop'')) (Some (QStr ''0''))))
        CallPuppeteer = 1
   \<and> count_list (snd (scrapeHandler failingBackends (Some (QStr ''laptop'')) (Some (QStr ''0''))))
        CallAxios = 1"
proof -
  have h1: "''laptop'' \<noteq> []" by simp
  have z: "zeroRecords (puppeteerOutcome failingBackends i)" for i
    by (simp add: failingBackends_def zeroRecords_def)
  have l: "isl (puppeteerOutcome failingBackends i)" for i
    by (simp add: failingBackends_def)
  have two: "0 \<le> retryCountOf (Some (QStr ''2''))" by (simp add: retryCountOf_numeral)
  have zero: "0 \<le> retryCountOf (Some (QStr ''0''))" by (simp add: retryCountOf_numeral)
  have a: "count_list (snd (scrapeHandler failingBackends (Some (QStr ''laptop'')) (Some (QStr ''2''))))
        CallPuppeteer = 3 \<and>
     count_list (snd (scrapeHandler failingBackends (Some (QStr ''laptop'')) (Some (QStr ''2''))))
        CallAxios = 1"
    using C1_raw_fetch_after_final_error [OF h1 two z] l
    by (simp only: retryCountOf_numeral if_True) simp
  have b: "count_list (snd (scrapeHandler failingBackends (Some (QStr ''laptop'')) (Some (QStr ''0''))))
        CallPuppeteer = 1 \<and>
     count_list (snd (scrapeHandler failingBackends (Some (QStr ''laptop'')) (Some (QStr ''0''))))
        CallAxios = 1"
    using C1_raw_fetch_after_final_error [OF h1 zero z] l
    by (simp only: retryCountOf_numeral if_True) simp
  from a b h1 two z show ?thesis by blast
qed

text \<open>
  C1 as stated fails when the last rendering attempt returns an empty list instead of
  throwing: with budget 0 the only attempt yields zero records, and the handler returns
  without calling the raw-fetch backend.
\<close>

theorem C1_empty_result_no_fallback:
  "zeroRecords (puppeteerOutcome emptyBackends 0)
   \<and> snd (scrapeHandler emptyBackends (Some (QStr ''laptop'')) (Some (QStr ''0'')))
       = [CallPuppeteer]
   \<and> \<not> count_list (snd (scrapeHandler emptyBackends (Some (QStr ''laptop'')) (Some (QStr ''0''))))
         CallAxios = 1"
proof -
  have z: "zeroRecords (puppeteerOutcome emptyBackends 0)"
    by (simp add: emptyBackends_def zeroRecords_def)
  have "trace (scrapeLoop emptyBackends 0 0 \<lparr>products = [], lastError = None, trace = []\<rparr>)
          = [CallPuppeteer]"
    by (simp add: scrapeLoop.simps emptyBackends_def callPuppeteer_def)
  then have t: "snd (scrapeHandler emptyBackends (Some (QStr ''laptop'')) (Some (QStr ''0'')))
          = [CallPuppeteer]"
    by (simp add: scrapeHandler_trace retryCountOf_numeral)
  show ?thesis unfolding t using z by simp
qed

section \<open>Retry budget\<close>

lemma scrapeLoop_negative: "r < 0 \<Longrightarrow> scrapeLoop w r 0 s = s"
  by (subst scrapeLoop.simps) simp

text \<open>
  C10. The retry budget is \<^verbatim>\<open>Math.min(parseInt(retry) || 0, 3)\<close>: a value that parses
  to more than 3 gives 3, a value that does not parse to a number gives 0, an absent
  parameter gives 0, and a value that parses to a negative number is kept as it is. With a
  negative budget the handler calls neither backend and answers 404 \<^verbatim>\<open>No products found\<close>.
\<close>

theorem C10_retry_clamping:
  assumes "parseInt (jsString v1) = Some n1" and "3 < n1"
    and "parseInt (jsString v2) = None"
    and "parseInt (jsString v3) = Some n3" and "n3 < 0"
    and "k \<noteq> []"
  shows "retryCountOf (Some v1) = 3
       \<and> retryCountOf (Some v2) = 0
       \<and> retryCountOf None = 0
       \<and> retryCountOf (Some v3) = n3
       \<and> scrapeHandler w (Some (QStr k)) (Some v3)
           = (ErrorJson 404 ''No products found'' ''Try different keywords'', [])"
proof -
  have r3: "retryCountOf (Some v3) = n3"
    using assms(4,5) by (simp add: retryCountOf_def)
  have "retryCountOf None = 0"
    by (simp add: retryCountOf_def parseInt_def isStrWhiteSpace_def isRadixDigit_def
        digitValue_def digitsValue_def)
  moreover have "scrapeHandler w (Some (QStr k)) (Some v3)
      = (ErrorJson 404 ''No products found'' ''Try different keywords'', [])"
    using assms(5,6) r3 by (simp add: scrapeHandler_def scrapeLoop_negative Let_def)
  ultimately show ?thesis
    using assms(1,2,3) r3 by (simp add: retryCountOf_def)
qed

text \<open>
  The theorem at \<^verbatim>\<open>retry=7\<close>, \<^verbatim>\<open>retry=abc\<close> and \<^verbatim>\<open>retry=-2\<close>.
\<close>

theorem C10_retry_clamping_witness:
  "parseInt (jsString (QStr ''7'')) = Some 7 \<and> (3::int) < 7
   \<and> parseInt (jsString (QStr ''abc'')) = None
   \<and> parseInt (jsString (QStr ''-2'')) = Some (- 2) \<and> (- 2::int) < 0
   \<and> ''laptop'' \<noteq> []
   \<and> retryCountOf (Some (QStr ''7'')) = 3
   \<and> retryCountOf (Some (QStr ''abc'')) = 0
   \<and> retryCountOf (Some (QStr ''-2'')) = - 2
   \<and> scrapeHandler failingBackends (Some (QStr ''laptop'')) (Some (QStr ''-2''))
       = (ErrorJson 404 ''No products found'' ''Try different keywords'', [])"
proof -
  have p1: "parseInt (jsString (QStr ''7'')) = Some 7"
    by (simp add: parseInt_def isStrWhiteSpace_def isRadixDigit_def digitValue_def
        digitsValue_def)
  have p2: "parseInt (jsString (QStr ''abc'')) = None"
    by (simp add: parseInt_def isStrWhiteSpace_def isRadixDigit_def digitValue_def
        digitsValue_def)
  have p3: "parseInt (jsString (QStr ''-2'')) = Some (- 2)"
    by (simp add: parseInt_def isStrWhiteSpace_def isRadixDigit_def digitValue_def
        digitsValue_def)
  have h: "''laptop'' \<noteq> []" by simp
  from C10_retry_clamping [OF p1 _ p2 p3 _ h, of failingBackends] p1 p2 p3 h
  show ?thesis by simp
qed

section \<open>Admission gate\<close>

lemma foldl_delete:
  "foldl (\<lambda>m ip. m(ip := None)) m cs c = (if c \<in> set cs then None else m c)"
  by (induction cs arbitrary: m) auto

lemma requestCounts_runTimers:
  "requestCounts (runTimers now g) c
     = (if \<exists>d. (d, c) \<in> set (timers g) \<and> d \<le> now then None else requestCounts g c)"
  by (force simp: runTimers_def foldl_delete)

lemma timers_runTimers: "timers (runTimers now g) = filter (\<lambda>t. now < fst t) (timers g)"
  by (simp add: runTimers_def)

lemma rateLimit_denied_unchanged:
  "fst (rateLimit now ip g) = Status429 \<Longrightarrow> snd (rateLimit now ip g) = g"
  by (simp add: rateLimit_def Let_def split: if_splits)

lemma timers_request:
  "set (timers (snd (request now ip g)))
     \<subseteq> {t \<in> set (timers g). now < fst t} \<union> {(now + 60000, ip)}"
  by (auto simp: request_def rateLimit_def Let_def timers_runTimers)

subsection \<open>Requests within one window\<close>

lemma expectedDecisions_Suc:
  "expectedDecisions n0 (Suc k)
     = (if 10 < n0 then Status429 else Next) # expectedDecisions (Suc n0) k"
  by (simp add: expectedDecisions_def upt_rec [of 0] map_Suc_upt [symmetric] del: upt_Suc)

lemma expectedDecisions_denied:
  "10 < n0 \<Longrightarrow> expectedDecisions (Suc n0) k = expectedDecisions n0 k"
  by (simp add: expectedDecisions_def)

lemma expectedDecisions_fresh:
  "expectedDecisions 0 n = replicate (min n 11) Next @ replicate (n - 11) Status429"
proof (induction n)
  case 0
  show ?case by (simp add: expectedDecisions_def)
next
  case (Suc n)
  have step: "expectedDecisions 0 (Suc n)
          = expectedDecisions 0 n @ [if 10 < n then Status429 else Next]"
    by (simp add: expectedDecisions_def)
  show ?case
  proof (cases "10 < n")
    case True
    then have "min (Suc n) 11 = min n 11" "Suc n - 11 = Suc (n - 11)" by simp_all
    with True step Suc show ?thesis
      by (simp add: replicate_append_same)
  next
    case False
    then have "min (Suc n) 11 = Suc (min n 11)" "Suc n - 11 = 0" "n - 11 = 0" by simp_all
    with False step Suc show ?thesis
      by (simp add: replicate_append_same)
  qed
qed

text \<open>
  Within a window that ends at \<open>T\<close> no timer of the client falls due: its count is not
  reset, and the timers it adds are due at \<open>T\<close> or later.
\<close>

lemma window_keep:
  "(\<And>d. (d, ip) \<in> set (timers g) \<Longrightarrow> T \<le> d) \<Longrightarrow> t < T
     \<Longrightarrow> requestCounts (runTimers t g) ip = requestCounts g ip"
  by (fastforce simp: requestCounts_runTimers)

lemma window_timers:
  "(\<And>d. (d, ip) \<in> set (timers g) \<Longrightarrow> T \<le> d) \<Longrightarrow> T \<le> t + 60000
     \<Longrightarrow> (d, ip) \<in> set (timers (snd (request t c g))) \<Longrightarrow> T \<le> d"
  using timers_request [of t c g] by auto

lemma window_other:
  "(\<And>d. (d, ip) \<in> set (timers g) \<Longrightarrow> T \<le> d) \<Longrightarrow> t < T \<Longrightarrow> c \<noteq> ip
     \<Longrightarrow> currentCountOf (snd (request t c g)) ip = currentCountOf g ip"
  using window_keep [of ip g T t]
  by (simp add: request_def rateLimit_def Let_def currentCountOf_def)

lemma window_decision:
  "(\<And>d. (d, ip) \<in> set (timers g) \<Longrightarrow> T \<le> d) \<Longrightarrow> t < T
     \<Longrightarrow> fst (request t ip g) = (if 10 < currentCountOf g ip then Status429 else Next)"
  using window_keep [of ip g T t]
  by (simp add: request_def rateLimit_def Let_def currentCountOf_def)

lemma window_count:
  "(\<And>d. (d, ip) \<in> set (timers g) \<Longrightarrow> T \<le> d) \<Longrightarrow> t < T
     \<Longrightarrow> currentCountOf (snd (request t ip g)) ip
           = (if 10 < currentCountOf g ip then currentCountOf g ip
              else Suc (currentCountOf g ip))"
  using window_keep [of ip g T t]
  by (simp add: request_def rateLimit_def Let_def currentCountOf_def)

lemma decisions_in_window:
  "(\<And>d. (d, ip) \<in> set (timers g) \<Longrightarrow> T \<le> d) \<Longrightarrow>
   list_all (\<lambda>e. fst e < T \<and> T \<le> fst e + 60000) es \<Longrightarrow>
   decisionsFor ip es g
       = expectedDecisions (currentCountOf g ip) (length (filter (\<lambda>e. snd e = ip) es))
   \<and> currentCountOf (requests es g) ip
       = (if 10 < currentCountOf g ip then currentCountOf g ip
          else min 11 (currentCountOf g ip + length (filter (\<lambda>e. snd e = ip) es)))"
proof (induction es arbitrary: g)
  case Nil
  show ?case by (simp add: expectedDecisions_def)
next
  case (Cons e es)
  obtain t c where e: "e = (t, c)" by (cases e)
  let ?g1 = "snd (request t c g)"
  have t: "t < T" "T \<le> t + 60000" using Cons.prems(2) e by simp_all
  have inv1: "\<And>d. (d, ip) \<in> set (timers ?g1) \<Longrightarrow> T \<le> d"
    using window_timers [of ip g T t _ c, OF Cons.prems(1) t(2)] by blast
  have rest: "list_all (\<lambda>e. fst e < T \<and> T \<le> fst e + 60000) es"
    using Cons.prems(2) by simp
  note IH = Cons.IH [of ?g1, OF inv1 rest]
  show ?case
  proof (cases "c = ip")
    case False
    with IH window_other [of ip g T t c, OF Cons.prems(1) t(1)] e show ?thesis by simp
  next
    case True
    with IH window_decision [of ip g T t, OF Cons.prems(1) t(1)]
      window_count [of ip g T t, OF Cons.prems(1) t(1)] e show ?thesis
      by (auto simp: expectedDecisions_Suc expectedDecisions_denied)
  qed
qed

lemma decisions_fresh_window:
  assumes "requestCounts g ip = None"
    and "\<And>d. (d, ip) \<in> set (timers g) \<Longrightarrow> t1 + 60000 \<le> d"
    and "list_all (\<lambda>e. t1 \<le> fst e \<and> fst e < t1 + 60000) es"
  shows "decisionsFor ip es g
           = replicate (min (length (filter (\<lambda>e. snd e = ip) es)) 11) Next
               @ replicate (length (filter (\<lambda>e. snd e = ip) es) - 11) Status429"
    and "currentCountOf (requests es g) ip = min 11 (length (filter (\<lambda>e. snd e = ip) es))"
proof -
  have c0: "currentCountOf g ip = 0" using assms(1) by (simp add: currentCountOf_def)
  have "list_all (\<lambda>e. fst e < t1 + 60000 \<and> t1 + 60000 \<le> fst e + 60000) es"
    using assms(3) by (simp add: list_all_iff)
  from decisions_in_window [of ip g "t1 + 60000" es, OF assms(2) this] c0
  show "decisionsFor ip es g
           = replicate (min (length (filter (\<lambda>e. snd e = ip) es)) 11) Next
               @ replicate (length (filter (\<lambda>e. snd e = ip) es) - 11) Status429"
    and "currentCountOf (requests es g) ip = min 11 (length (filter (\<lambda>e. snd e = ip) es))"
    by (simp_all add: expectedDecisions_fresh)
qed

text \<open>
  C2, as the code has it. For every client, starting from a state with no entry and no
  pending timer of that client due before the end of the window, the client's first eleven
  requests within the 60-second window are admitted and every later one in the window is
  denied: the twelfth request is the first to be denied, and the count stays at eleven. A
  denied request leaves the state as it was (no increment, no timer).
\<close>

theorem C2_twelfth_request_denied:
  assumes "requestCounts g ip = None"
    and "\<And>d. (d, ip) \<in> set (timers g) \<Longrightarrow> t1 + 60000 \<le> d"
    and "list_all (\<lambda>e. t1 \<le> fst e \<and> fst e < t1 + 60000) es"
  shows "decisionsFor ip es g
           = replicate (min (length (filter (\<lambda>e. snd e = ip) es)) 11) Next
               @ replicate (length (filter (\<lambda>e. snd e = ip) es) - 11) Status429
       \<and> currentCountOf (requests es g) ip = min 11 (length (filter (\<lambda>e. snd e = ip) es))
       \<and> (fst (rateLimit now ip g') = Status429 \<longrightarrow> snd (rateLimit now ip g') = g')"
  using decisions_fresh_window [OF assms] rateLimit_denied_unchanged [of now ip g']
  by simp

text \<open>
  The theorem for twelve requests of one client, one second apart, at an empty gate: eleven
  admitted, the twelfth denied, and the twelfth leaves the state of the eleventh.
\<close>

theorem C2_twelfth_request_denied_witness:
  "requestCounts emptyGate ''10.0.0.1'' = None
   \<and> timers emptyGate = []
   \<and> list_all (\<lambda>e. 0 \<le> fst e \<and> fst e < 0 + 60000) (requestsEverySecond ''10.0.0.1'')
   \<and> decisionsFor ''10.0.0.1'' (requestsEverySecond ''10.0.0.1'') emptyGate
       = [Next, Next, Next, Next, Next, Next, Next, Next, Next, Next, Next, Status429]
   \<and> currentCountOf (requests (requestsEverySecond ''10.0.0.1'') emptyGate) ''10.0.0.1'' = 11
   \<and> fst (rateLimit 11000 ''10.0.0.1''
            (runTimers 11000 (requests (take 11 (requestsEverySecond ''10.0.0.1'')) emptyGate)))
       = Status429
   \<and> snd (rateLimit 11000 ''10.0.0.1''
            (runTimers 11000 (requests (take 11 (requestsEverySecond ''10.0.0.1'')) emptyGate)))
       = runTimers 11000 (requests (take 11 (requestsEverySecond ''10.0.0.1'')) emptyGate)"
proof -
  have h1: "requestCounts emptyGate ''10.0.0.1'' = None" by (simp add: emptyGate_def)
  have h2: "timers emptyGate = []" by (simp add: emptyGate_def)
  have h2': "\<And>d. (d, ''10.0.0.1'') \<in> set (timers emptyGate) \<Longrightarrow> 0 + 60000 \<le> d"
    by (simp add: h2)
  have h3: "list_all (\<lambda>e. 0 \<le> fst e \<and> fst e < 0 + 60000) (requestsEverySecond ''10.0.0.1'')"
    by (simp add: requestsEverySecond_def)
  have n: "length (filter (\<lambda>e. snd e = ''10.0.0.1'') (requestsEverySecond ''10.0.0.1'')) = 12"
    by (simp add: requestsEverySecond_def)
  let ?g11 = "runTimers 11000 (requests (take 11 (requestsEverySecond ''10.0.0.1'')) emptyGate)"
  have last: "fst (rateLimit 11000 ''10.0.0.1'' ?g11) = Status429"
    by (simp add: requestsEverySecond_def emptyGate_def request_def rateLimit_def
        runTimers_def)
  have r: "replicate (min 12 11) Next @ replicate (12 - 11) Status429
           = [Next, Next, Next, Next, Next, Next, Next, Next, Next, Next, Next, Status429]"
    by (simp add: numeral_eq_Suc)
  have m: "min 11 (12::nat) = 11" by simp
  note t = C2_twelfth_request_denied [OF h1 h2' h3, of 11000 ?g11, unfolded n r m]
  from t have a: "decisionsFor ''10.0.0.1'' (requestsEverySecond ''10.0.0.1'') emptyGate
       = [Next, Next, Next, Next, Next, Next, Next, Next, Next, Next, Next, Status429]"
    by (rule conjunct1)
  from t have b: "currentCountOf (requests (requestsEverySecond ''10.0.0.1'') emptyGate) ''10.0.0.1'' = 11"
    by blast
  from t last have c: "snd (rateLimit 11000 ''10.0.0.1'' ?g11) = ?g11"
    by blast
  from h1 h2 h3 a b last c show ?thesis by blast
qed

text \<open>
  C2 as stated fails at the eleventh request: after ten admitted requests within the
  window the count is 10, the test \<^verbatim>\<open>currentCount > 10\<close> is false, and the eleventh
  request is admitted.
\<close>

theorem C2_eleventh_request_admitted:
  "\<not> decisionsFor ''10.0.0.1'' (take 11 (requestsEverySecond ''10.0.0.1'')) emptyGate
       = [Next, Next, Next, Next, Next, Next, Next, Next, Next, Next, Status429]
   \<and> decisionsFor ''10.0.0.1'' (take 11 (requestsEverySecond ''10.0.0.1'')) emptyGate
       = [Next, Next, Next, Next, Next, Next, Next, Next, Next, Next, Next]"
  by (simp add: requestsEverySecond_def emptyGate_def request_def rateLimit_def runTimers_def)

subsection \<open>Expiry\<close>

text \<open>
  C7 does not hold of the code: a fresh window is truncated by earlier activity. Every
  admitted request schedules its own \<^verbatim>\<open>requestCounts.delete(ip)\<close> and no timer is ever
  cancelled. A client calls at 0 s and at 30 s; the timer of the first call removes the
  entry at 60 s; the call at 61 s starts a fresh window with count 1; at 90 s the timer of
  the call at 30 s falls due and removes the entry, 29 seconds into the window that began
  at 61 s. In the second sequence the window that begins at 61 s admits eleven requests and
  refuses the twelfth at 72 s; at 119 s the timer of the call at 59 s removes the entry, and
  the calls at 119 s and 120 s are admitted within that same window.
\<close>

theorem C7_fresh_window_truncated:
  "requestCounts (requests staleTimerRequests emptyGate) ''10.0.0.1'' = Some 1
   \<and> requestCounts (runTimers 89999 (requests staleTimerRequests emptyGate)) ''10.0.0.1'' = Some 1
   \<and> (90000::nat) < 61000 + 60000
   \<and> requestCounts (runTimers 90000 (requests staleTimerRequests emptyGate)) ''10.0.0.1'' = None
   \<and> decisionsFor ''10.0.0.1'' windowOverrunRequests emptyGate
       = [Next, Next,
          Next, Next, Next, Next, Next, Next, Next, Next, Next, Next, Next, Status429,
          Next, Next]"
  by (simp add: staleTimerRequests_def windowOverrunRequests_def emptyGate_def request_def
      rateLimit_def runTimers_def)

section \<open>Extraction: valid records and links\<close>

lemma truthy_iff: "truthy v \<longleftrightarrow> v \<noteq> None \<and> v \<noteq> Some []"
  by (simp add: truthy_def split: option.splits)

lemma getBrowser_first:
  "browserInstance s = None \<Longrightarrow> launch (launchCalls s) = None \<Longrightarrow>
   getBrowser launch s
     = (Inr (processes s),
        s\<lparr>dataDirResets := dataDirResets s + 1, processes := processes s + 1,
          launchCalls := launchCalls s + 1, browserInstance := Some (processes s)\<rparr>)"
  by (simp add: getBrowser_def)

lemma getBrowser_again:
  "browserInstance s = Some b \<Longrightarrow> getBrowser launch s = (Inr b, s)"
  by (simp add: getBrowser_def)

lemma scrapeWithPuppeteer_result:
  "fst (scrapeWithPuppeteer w s) = Inr ps \<Longrightarrow> evaluateExtract (pageItems w) = Inr ps"
proof -
  assume r: "fst (scrapeWithPuppeteer w s) = Inr ps"
  have "onPage w = Inr ps"
    using r
    by (auto simp: scrapeWithPuppeteer_def Let_def split: prod.splits sum.splits option.splits)
  then show ?thesis
    by (auto simp: onPage_def split: option.splits if_splits)
qed

lemma puppeteer_sample:
  "scrapeWithPuppeteer (resultsPage [laptopItem, unpricedItem]) initialServer
   = (Inr [laptopProduct],
      initialServer\<lparr>dataDirResets := 1, processes := 1, launchCalls := 1,
         browserInstance := Some 0, pagesCreated := 1, openPages := [0]\<rparr>)"
  by (simp add: scrapeWithPuppeteer_def getBrowser_first resultsPage_def launchSucceeds_def
      initialServer_def onPage_def evaluateExtract_def puppeteerProduct_def laptopItem_def
      unpricedItem_def laptopProduct_def truthy_def trim_def isStrWhiteSpace_def Let_def)

lemma axios_sample:
  "scrapeWithAxios (resultsBody [laptopItem, unpricedItem]) = Inr [laptopProduct]"
  by (simp add: scrapeWithAxios_def resultsBody_def axiosProduct_def laptopItem_def
      unpricedItem_def laptopProduct_def truthy_def trim_def isStrWhiteSpace_def)

text \<open>
  C3. Every record in the list that either backend returns has a title and a price that
  are present and not empty: both \<^verbatim>\<open>scrapeWithPuppeteer\<close> and \<^verbatim>\<open>scrapeWithAxios\<close>
  end with \<^verbatim>\<open>.filter(p => p.title && p.price)\<close>.
\<close>

theorem C3_backends_return_valid_records:
  "(fst (scrapeWithPuppeteer pw s) = Inr ps \<longrightarrow> p \<in> set ps \<longrightarrow>
      title p \<noteq> None \<and> title p \<noteq> Some [] \<and> price p \<noteq> None \<and> price p \<noteq> Some [])
 \<and> (scrapeWithAxios fw = Inr qs \<longrightarrow> q \<in> set qs \<longrightarrow>
      title q \<noteq> None \<and> title q \<noteq> Some [] \<and> price q \<noteq> None \<and> price q \<noteq> Some [])"
proof (intro conjI impI)
  assume r: "fst (scrapeWithPuppeteer pw s) = Inr ps" and p: "p \<in> set ps"
  have "evaluateExtract (pageItems pw) = Inr ps"
    using r by (rule scrapeWithPuppeteer_result)
  then have "truthy (title p) \<and> truthy (price p)"
    using p by (auto simp: evaluateExtract_def split: sum.splits)
  then show "title p \<noteq> None" "title p \<noteq> Some []" "price p \<noteq> None" "price p \<noteq> Some []"
    by (simp_all add: truthy_iff)
next
  assume r: "scrapeWithAxios fw = Inr qs" and q: "q \<in> set qs"
  have "truthy (title q) \<and> truthy (price q)"
    using r q by (auto simp: scrapeWithAxios_def split: axios_outcome.splits if_splits)
  then show "title q \<noteq> None" "title q \<noteq> Some []" "price q \<noteq> None" "price q \<noteq> Some []"
    by (simp_all add: truthy_iff)
qed

text \<open>
  The theorem for a page and a response body with two elements, of which the second has
  no price: each backend returns the first record only.
\<close>

theorem C3_backends_return_valid_records_witness:
  "fst (scrapeWithPuppeteer (resultsPage [laptopItem, unpricedItem]) initialServer)
     = Inr [laptopProduct]
   \<and> laptopProduct \<in> set [laptopProduct]
   \<and> scrapeWithAxios (resultsBody [laptopItem, unpricedItem]) = Inr [laptopProduct]
   \<and> title laptopProduct \<noteq> None \<and> title laptopProduct \<noteq> Some []
   \<and> price laptopProduct \<noteq> None \<and> price laptopProduct \<noteq> Some []"
proof -
  have a: "fst (scrapeWithPuppeteer (resultsPage [laptopItem, unpricedItem]) initialServer)
             = Inr [laptopProduct]"
    by (simp add: puppeteer_sample)
  have b: "laptopProduct \<in> set [laptopProduct]" by simp
  note c = axios_sample
  from C3_backends_return_valid_records
         [of "resultsPage [laptopItem, unpricedItem]" initialServer "[laptopProduct]"
             laptopProduct "resultsBody [laptopItem, unpricedItem]" "[laptopProduct]"
             laptopProduct]
       a b c
  show ?thesis by blast
qed

lemma mapThrowing_elem:
  "mapThrowing f xs = Inr ys \<Longrightarrow> y \<in> set ys \<Longrightarrow> \<exists>x \<in> set xs. f x = Inr y"
  by (induction xs arbitrary: ys) (auto split: sum.splits)

lemma puppeteerProduct_link:
  "puppeteerProduct it = Inr p \<Longrightarrow> \<exists>path. link p = Some (''https://www.amazon.com'' @ path)"
  by (auto simp: puppeteerProduct_def Let_def split: option.splits)

text \<open>
  The rendering backend gives every record a link on the origin
  \<^verbatim>\<open>https://www.amazon.com\<close>.
\<close>

lemma puppeteer_link_on_origin:
  assumes "fst (scrapeWithPuppeteer w s) = Inr ps" and "p \<in> set ps"
  shows "\<exists>path. link p = Some (''https://www.amazon.com'' @ path)"
proof -
  have "evaluateExtract (pageItems w) = Inr ps"
    using assms(1) by (rule scrapeWithPuppeteer_result)
  then obtain qs where "mapThrowing puppeteerProduct (pageItems w) = Inr qs" "p \<in> set qs"
    using assms(2) by (auto simp: evaluateExtract_def split: sum.splits)
  from mapThrowing_elem [OF this] obtain it where "puppeteerProduct it = Inr p"
    by auto
  then show ?thesis by (rule puppeteerProduct_link)
qed

text \<open>
  C6 does not hold of the raw-fetch backend. For a result element with a title and a
  price and no product anchor, \<^verbatim>\<open>scrapeWithAxios\<close> returns a record whose link is
  \<^verbatim>\<open>undefined\<close>, where \<^verbatim>\<open>scrapeWithPuppeteer\<close> on the same element constructs
  \<^verbatim>\<open>https://www.amazon.com/dp/\<close> followed by the \<^verbatim>\<open>data-asin\<close> attribute.
\<close>

theorem C6_axios_link_undefined:
  "scrapeWithAxios (resultsBody [unlinkedItem]) = Inr [laptopProduct\<lparr>link := None\<rparr>]
   \<and> fst (scrapeWithPuppeteer (resultsPage [unlinkedItem]) initialServer)
       = Inr [laptopProduct\<lparr>link := Some ''https://www.amazon.com/dp/B0TEST0003''\<rparr>]"
  by (simp add: scrapeWithAxios_def resultsBody_def axiosProduct_def
      scrapeWithPuppeteer_def getBrowser_first resultsPage_def launchSucceeds_def
      initialServer_def onPage_def evaluateExtract_def puppeteerProduct_def laptopItem_def
      unlinkedItem_def laptopProduct_def truthy_def trim_def isStrWhiteSpace_def Let_def)

section \<open>Pages opened by the rendering backend\<close>

lemma gbStep_pages:
  "gbStep launch c s = (c', s') \<Longrightarrow>
   openPages s' = openPages s \<and> pagesCreated s' = pagesCreated s"
  by (induction launch c s rule: gbStep.induct) (auto split: option.splits)

lemma gbRun_pages:
  "gbRun launch c s = (r, s') \<Longrightarrow>
   openPages s' = openPages s \<and> pagesCreated s' = pagesCreated s"
proof (induction launch c s rule: gbRun.induct)
  case (1 launch r0 s)
  then show ?case by simp
next
  case (2 launch s)
  then show ?case
    by (auto split: prod.splits dest!: gbStep_pages simp del: gbStep.simps)
next
  case (3 launch s)
  then show ?case
    by (auto split: prod.splits dest!: gbStep_pages simp del: gbStep.simps)
next
  case (4 launch b s)
  then show ?case
    by (auto split: prod.splits dest!: gbStep_pages simp del: gbStep.simps)
next
  case (5 launch e s)
  then show ?case
    by (auto split: prod.splits dest!: gbStep_pages simp del: gbStep.simps)
qed

text \<open>
  No path through \<^verbatim>\<open>scrapeWithPuppeteer\<close> removes a page: once \<^verbatim>\<open>browser.newPage()\<close>
  has succeeded the new page is open when the call ends, whatever its result.
\<close>

lemma scrapeWithPuppeteer_keeps_page:
  assumes "fst (getBrowser (launchOutcome w) s) = Inr b" and "newPageError w = None"
  shows "openPages (snd (scrapeWithPuppeteer w s)) = openPages s @ [pagesCreated s]"
proof -
  obtain s1 where g: "getBrowser (launchOutcome w) s = (Inr b, s1)"
    using assms(1) by (cases "getBrowser (launchOutcome w) s") simp
  then have "openPages s1 = openPages s \<and> pagesCreated s1 = pagesCreated s"
    unfolding getBrowser_def by (rule gbRun_pages)
  with g assms(2) show ?thesis
    by (simp add: scrapeWithPuppeteer_def Let_def)
qed

text \<open>
  C5 does not hold of the code. On a page where every step succeeds, and on a page where
  \<^verbatim>\<open>page.goto\<close> times out, \<^verbatim>\<open>scrapeWithPuppeteer\<close> ends with the page it opened (page 0)
  still open.
\<close>

theorem C5_page_left_open:
  "fst (scrapeWithPuppeteer (resultsPage [laptopItem]) initialServer) = Inr [laptopProduct]
   \<and> openPages (snd (scrapeWithPuppeteer (resultsPage [laptopItem]) initialServer)) = [0]
   \<and> fst (scrapeWithPuppeteer timedOutPage initialServer)
       = Inl ''Navigation timeout of 30000 ms exceeded''
   \<and> openPages (snd (scrapeWithPuppeteer timedOutPage initialServer)) = [0]"
  by (simp add: scrapeWithPuppeteer_def getBrowser_first resultsPage_def timedOutPage_def
      launchSucceeds_def initialServer_def onPage_def evaluateExtract_def puppeteerProduct_def
      laptopItem_def laptopProduct_def truthy_def trim_def isStrWhiteSpace_def Let_def)

section \<open>Render session\<close>

text \<open>
  Calls of \<^verbatim>\<open>getBrowser\<close> that follow one another reuse the browser of the first.
\<close>

lemma getBrowser_sequential:
  "getBrowser launchSucceeds (snd (getBrowser launchSucceeds initialServer))
     = (Inr 0, snd (getBrowser launchSucceeds initialServer))
   \<and> processes (snd (getBrowser launchSucceeds initialServer)) = 1"
  by (simp add: getBrowser_first getBrowser_again launchSucceeds_def initialServer_def)

text \<open>
  C4 does not hold of the code. Two calls of \<^verbatim>\<open>getBrowser\<close> are in progress at once.
  In the first schedule both are started before either resumes: each finds
  \<^verbatim>\<open>browserInstance\<close> unset and suspends at \<^verbatim>\<open>await clearPuppeteerData()\<close>, and each,
  resumed, calls \<^verbatim>\<open>puppeteer.launch\<close>. In the second schedule the second call starts
  while the first is suspended at \<^verbatim>\<open>await puppeteer.launch(launchOptions)\<close>, before
  \<^verbatim>\<open>browserInstance\<close> is assigned. Either way two processes are created, the first caller
  receives browser 0 and the second browser 1, and \<^verbatim>\<open>browserInstance\<close> keeps the second.
\<close>

theorem C4_two_calls_two_processes:
  "runSchedule launchSucceeds [0, 1, 0, 1, 0, 1] [GbStart, GbStart] initialServer
     = ([GbReturned (Inr 0), GbReturned (Inr 1)],
        initialServer\<lparr>dataDirResets := 2, processes := 2, launchCalls := 2,
           browserInstance := Some 1\<rparr>)
   \<and> runSchedule launchSucceeds [0, 0, 1, 1, 0, 1] [GbStart, GbStart] initialServer
     = ([GbReturned (Inr 0), GbReturned (Inr 1)],
        initialServer\<lparr>dataDirResets := 2, processes := 2, launchCalls := 2,
           browserInstance := Some 1\<rparr>)"
  by (simp add: launchSucceeds_def initialServer_def)

section \<open>Identity generator: one version in every field\<close>

lemma chromeVersionOf_range:
  assumes "0 \<le> r" "r < 1"
  shows "115 \<le> chromeVersionOf r \<and> chromeVersionOf r \<le> 124"
proof -
  have "0 \<le> r * 10" "r * 10 < 10" using assms by simp_all
  then have "0 \<le> \<lfloor>r * 10\<rfloor>" "\<lfloor>r * 10\<rfloor> < 10" by (simp_all add: floor_less_iff)
  then show ?thesis by (simp add: chromeVersionOf_def)
qed

lemma afterMarker_userAgent:
  "afterMarker ''Chrome/''
     (''Mozilla/5.0 (Windows NT 10.0; Win64; x64) AppleWebKit/537.36 (KHTML, like Gecko) Chrome/'' @ rest)
   = Some rest"
  by simp

lemma afterMarker_chrome:
  "afterMarker ([CHR 0x22] @ ''Google Chrome'' @ [CHR 0x22] @ '';v='' @ [CHR 0x22])
     ([CHR 0x22] @ ''Google Chrome'' @ [CHR 0x22] @ '';v='' @ [CHR 0x22] @ rest)
   = Some rest"
  by simp

lemma afterMarker_chromium:
  "length ds = 3 \<Longrightarrow> CHR 0x22 \<notin> set ds \<Longrightarrow>
   afterMarker ([CHR 0x22] @ ''Chromium'' @ [CHR 0x22] @ '';v='' @ [CHR 0x22])
     ([CHR 0x22] @ ''Google Chrome'' @ [CHR 0x22] @ '';v='' @ [CHR 0x22] @ ds @ [CHR 0x22] @ '', ''
        @ [CHR 0x22] @ ''Chromium'' @ [CHR 0x22] @ '';v='' @ [CHR 0x22] @ rest)
   = Some rest"
  by (cases ds; cases "tl ds"; cases "tl (tl ds)") auto

text \<open>
  The decimal text of a version between 115 and 124 has three digits and reads back as the
  same number.
\<close>

lemma readVersion:
  assumes "115 \<le> v" "v \<le> 124"
  shows "length (numberToString v) = 3"
    and "CHR 0x22 \<notin> set (numberToString v)"
    and "c \<notin> set ''0123456789'' \<Longrightarrow>
           takeWhile (isRadixDigit 10) (numberToString v @ c # rest) = numberToString v"
    and "digitsValue 10 (numberToString v) = nat v"
proof -
  from assms have "v = 115 \<or> v = 116 \<or> v = 117 \<or> v = 118 \<or> v = 119 \<or> v = 120
      \<or> v = 121 \<or> v = 122 \<or> v = 123 \<or> v = 124" by arith
  then have ds: "numberToString v \<in> {''115'', ''116'', ''117'', ''118'', ''119'', ''120'',
      ''121'', ''122'', ''123'', ''124''} \<and> digitsValue 10 (numberToString v) = nat v"
    by (elim disjE) (simp_all add: numberToString_def digitChar_def digitsValue_def digitValue_def)
  then show "length (numberToString v) = 3" "CHR 0x22 \<notin> set (numberToString v)"
    "digitsValue 10 (numberToString v) = nat v" by auto
  assume "c \<notin> set ''0123456789''"
  then have "\<not> isRadixDigit 10 c"
    by (auto simp: isRadixDigit_def digitValue_def split: option.splits if_splits)
  with ds show "takeWhile (isRadixDigit 10) (numberToString v @ c # rest) = numberToString v"
    by (auto simp: isRadixDigit_def digitValue_def)
qed

text \<open>
  C8. For every value \<open>r\<close> of \<^verbatim>\<open>Math.random()\<close> (\<open>0 \<le> r < 1\<close>), the version number lies
  between 115 and 124, and it is the number read after \<^verbatim>\<open>Chrome/\<close> in the
  \<^verbatim>\<open>user-agent\<close> header and the version of the brands \<^verbatim>\<open>Google Chrome\<close> and
  \<^verbatim>\<open>Chromium\<close> in the \<^verbatim>\<open>sec-ch-ua\<close> header.
\<close>

theorem C8_versions_agree:
  assumes "0 \<le> r" "r < 1"
  shows "115 \<le> chromeVersionOf r \<and> chromeVersionOf r \<le> 124
       \<and> userAgentVersion (getAmazonHeaders r) = Some (chromeVersionOf r)
       \<and> clientHintVersion ''Google Chrome'' (getAmazonHeaders r) = Some (chromeVersionOf r)
       \<and> clientHintVersion ''Chromium'' (getAmazonHeaders r) = Some (chromeVersionOf r)"
proof -
  let ?v = "chromeVersionOf r"
  have rng: "115 \<le> ?v" "?v \<le> 124"
    using chromeVersionOf_range [OF assms] by simp_all
  note rv = readVersion [OF rng]
  have ne: "numberToString ?v \<noteq> []" using rv(1) by auto
  have ua: "userAgentVersion (getAmazonHeaders r) = Some ?v"
    using rv(3) [of "CHR ''.''" "''0.0.0 Safari/537.36''"] rv(4) rng ne
    by (simp add: userAgentVersion_def getAmazonHeaders_def Let_def versionAfter_def
        afterMarker_userAgent)
  have ch: "clientHintVersion ''Google Chrome'' (getAmazonHeaders r) = Some ?v"
    using rv(3) [of "CHR 0x22"] rv(4) rng ne
    by (simp add: clientHintVersion_def getAmazonHeaders_def Let_def versionAfter_def
        afterMarker_chrome [simplified])
  have cm: "clientHintVersion ''Chromium'' (getAmazonHeaders r) = Some ?v"
    using rv(3) [of "CHR 0x22"] rv(4) rng ne afterMarker_chromium [OF rv(1,2), simplified]
    by (simp add: clientHintVersion_def getAmazonHeaders_def Let_def versionAfter_def)
  from rng ua ch cm show ?thesis by simp
qed

text \<open>The theorem at \<open>r = 1/2\<close>, where the version is 120.\<close>

theorem C8_versions_agree_witness:
  "(0::real) \<le> 1 / 2 \<and> (1 / 2 :: real) < 1
   \<and> chromeVersionOf (1 / 2) = 120
   \<and> userAgentVersion (getAmazonHeaders (1 / 2)) = Some 120
   \<and> clientHintVersion ''Google Chrome'' (getAmazonHeaders (1 / 2)) = Some 120
   \<and> clientHintVersion ''Chromium'' (getAmazonHeaders (1 / 2)) = Some 120"
proof -
  have h1: "(0::real) \<le> 1 / 2" by simp
  have h2: "(1 / 2 :: real) < 1" by simp
  have v: "chromeVersionOf (1 / 2) = 120" by (simp add: chromeVersionOf_def)
  from C8_versions_agree [OF h1 h2] h1 h2 v show ?thesis
    by (simp only: v)
qed

end
